theory Spec2Isabelle
  imports Complex_Main "HOL-Library.Sublist"
begin

section \<open>JSON values and the JavaScript primitives the explorer uses\<close>

text \<open>
  The explorer page (\<^verbatim>\<open>src/app/explorer/page.tsx\<close>) works on
  \<^verbatim>\<open>type JsonRecord = Record<string, any>\<close>, the values being whatever
  \<^verbatim>\<open>JSON.parse\<close> produced. A JSON object is kept as the list of its own properties
  in property order (keys distinct), so that \<^verbatim>\<open>Object.keys\<close> and
  \<^verbatim>\<open>JSON.stringify\<close> see the order the program sees. Numbers are the integers that
  JavaScript prints in plain decimal notation; text is a list of bytes, and
  \<^verbatim>\<open>toLowerCase\<close> acts on the ASCII letters.
\<close>

datatype json =
    JNull
  | JBool bool
  | JNum int
  | JStr string
  | JArr "json list"
  | JObj "(string \<times> json) list"

type_synonym JsonRecord = "(string \<times> json) list"

subsection \<open>Reading a property\<close>

text \<open>
  \<^verbatim>\<open>r[key]\<close> gives the own property when the object has one and otherwise walks to
  \<^verbatim>\<open>Object.prototype\<close>, the prototype of every object \<^verbatim>\<open>JSON.parse\<close>, an
  object literal or a spread creates. A read therefore gives a JSON value,
  \<^verbatim>\<open>undefined\<close>, one of the built-in functions that every object inherits, or, under
  the name \<^verbatim>\<open>__proto__\<close>, the prototype object itself. A built-in function is kept
  by the name it prints with.
\<close>

datatype jsval = Undefined | Val json | NativeFunction string | ObjectPrototype

text \<open>The function-valued properties of \<^verbatim>\<open>Object.prototype\<close>, each with the name of its function.\<close>

definition prototypeFunctions :: "(string \<times> string) list" where
  "prototypeFunctions =
     [(''constructor'', ''Object''),
      (''__defineGetter__'', ''__defineGetter__''),
      (''__defineSetter__'', ''__defineSetter__''),
      (''hasOwnProperty'', ''hasOwnProperty''),
      (''__lookupGetter__'', ''__lookupGetter__''),
      (''__lookupSetter__'', ''__lookupSetter__''),
      (''isPrototypeOf'', ''isPrototypeOf''),
      (''propertyIsEnumerable'', ''propertyIsEnumerable''),
      (''toString'', ''toString''),
      (''valueOf'', ''valueOf''),
      (''toLocaleString'', ''toLocaleString'')]"

definition inheritedNames :: "string list" where
  "inheritedNames = ''__proto__'' # map fst prototypeFunctions"

definition inherited :: "string \<Rightarrow> jsval" where
  "inherited k =
     (if k = ''__proto__'' then ObjectPrototype
      else case map_of prototypeFunctions k of
             Some name \<Rightarrow> NativeFunction name
           | None \<Rightarrow> Undefined)"

definition getProp :: "JsonRecord \<Rightarrow> string \<Rightarrow> jsval" where
  "getProp r k = (case map_of r k of Some v \<Rightarrow> Val v | None \<Rightarrow> inherited k)"

text \<open>\<^verbatim>\<open>Object.keys(item)\<close>.\<close>

definition Object_keys :: "JsonRecord \<Rightarrow> string list" where
  "Object_keys r = map fst r"

subsection \<open>Numbers to text\<close>

definition digit :: "nat \<Rightarrow> char" where
  "digit d = char_of (48 + d)"

fun showNat :: "nat \<Rightarrow> string" where
  "showNat n = (if n < 10 then [digit n] else showNat (n div 10) @ [digit (n mod 10)])"

declare showNat.simps [simp del]

definition showInt :: "int \<Rightarrow> string" where
  "showInt i = (if i < 0 then CHR ''-'' # showNat (nat (- i)) else showNat (nat i))"

subsection \<open>\<^verbatim>\<open>String(value)\<close> and \<^verbatim>\<open>Array.prototype.join\<close>\<close>

text \<open>
  \<^verbatim>\<open>join\<close> writes \<^verbatim>\<open>null\<close> and \<^verbatim>\<open>undefined\<close> elements as the empty
  text and every other element as \<^verbatim>\<open>String(element)\<close>; \<^verbatim>\<open>String\<close> of an array
  is its \<^verbatim>\<open>join(',')\<close>, of an object \<^verbatim>\<open>[object Object]\<close>.
\<close>

fun intercalate :: "string \<Rightarrow> string list \<Rightarrow> string" where
  "intercalate sep [] = []"
| "intercalate sep [s] = s"
| "intercalate sep (s # t # ts) = s @ sep @ intercalate sep (t # ts)"

fun String_js :: "json \<Rightarrow> string" where
  "String_js JNull = ''null''"
| "String_js (JBool b) = (if b then ''true'' else ''false'')"
| "String_js (JNum n) = showInt n"
| "String_js (JStr s) = s"
| "String_js (JArr xs) = intercalate '','' (map (\<lambda>x. if x = JNull then [] else String_js x) xs)"
| "String_js (JObj kvs) = ''[object Object]''"

definition join :: "json list \<Rightarrow> string \<Rightarrow> string" where
  "join xs sep = intercalate sep (map (\<lambda>x. if x = JNull then [] else String_js x) xs)"

text \<open>
  \<^verbatim>\<open>String(value)\<close> of what a property read gave. A built-in function prints as
  Chrome and Node print it; the prototype object prints as any plain object.
\<close>

fun String_val :: "jsval \<Rightarrow> string" where
  "String_val Undefined = ''undefined''"
| "String_val (Val v) = String_js v"
| "String_val (NativeFunction name) = ''function '' @ name @ ''() { [native code] }''"
| "String_val ObjectPrototype = ''[object Object]''"

subsection \<open>\<^verbatim>\<open>JSON.stringify(value)\<close>\<close>

definition hexDigit :: "nat \<Rightarrow> char" where
  "hexDigit d = (if d < 10 then char_of (48 + d) else char_of (87 + d))"

text \<open>The escapes of \<^verbatim>\<open>QuoteJSONString\<close>; \<open>0x22\<close> is the double quote, \<open>0x5C\<close> the backslash.\<close>

definition escapeChar :: "char \<Rightarrow> string" where
  "escapeChar c =
     (let n = (of_char c :: nat) in
      if n = 0x08 then [CHR 0x5C, CHR ''b'']
      else if n = 0x09 then [CHR 0x5C, CHR ''t'']
      else if n = 0x0A then [CHR 0x5C, CHR ''n'']
      else if n = 0x0C then [CHR 0x5C, CHR ''f'']
      else if n = 0x0D then [CHR 0x5C, CHR ''r'']
      else if n = 0x22 then [CHR 0x5C, CHR 0x22]
      else if n = 0x5C then [CHR 0x5C, CHR 0x5C]
      else if n < 0x20 then [CHR 0x5C, CHR ''u'', CHR ''0'', CHR ''0'', hexDigit (n div 16), hexDigit (n mod 16)]
      else [c])"

definition quoteJSON :: "string \<Rightarrow> string" where
  "quoteJSON s = CHR 0x22 # concat (map escapeChar s) @ [CHR 0x22]"

fun JSON_stringify :: "json \<Rightarrow> string" where
  "JSON_stringify JNull = ''null''"
| "JSON_stringify (JBool b) = (if b then ''true'' else ''false'')"
| "JSON_stringify (JNum n) = showInt n"
| "JSON_stringify (JStr s) = quoteJSON s"
| "JSON_stringify (JArr xs) = ''['' @ intercalate '','' (map JSON_stringify xs) @ '']''"
| "JSON_stringify (JObj kvs) =
     ''{'' @ intercalate '','' (map (\<lambda>kv. quoteJSON (fst kv) @ '':'' @ JSON_stringify (snd kv)) kvs) @ ''}''"

subsection \<open>Text primitives\<close>

definition lowerChar :: "char \<Rightarrow> char" where
  "lowerChar c = (let n = (of_char c :: nat) in if 65 \<le> n \<and> n \<le> 90 then char_of (n + 32) else c)"

definition toLowerCase :: "string \<Rightarrow> string" where
  "toLowerCase s = map lowerChar s"

text \<open>\<^verbatim>\<open>s.includes(p)\<close>: \<open>p\<close> occurs in \<open>s\<close> as a contiguous piece.\<close>

fun includes_js :: "string \<Rightarrow> string \<Rightarrow> bool" where
  "includes_js [] p = (p = [])"
| "includes_js (c # s) p = (prefix p (c # s) \<or> includes_js s p)"

section \<open>The explorer page: state and operations\<close>

text \<open>The \<^verbatim>\<open>useState\<close> cells of \<^verbatim>\<open>ExplorerPage\<close>, in their order.\<close>

record explorer =
  rows :: "JsonRecord list"
  jsonData :: "JsonRecord list"
  jsonKeys :: "string list"
  q :: string
  columnFilters :: "(string \<times> string) list"
  columnExactMatch :: "(string \<times> bool) list"
  showSettings :: bool
  visibleColumns :: "(string \<times> bool) list"
  editingRowId :: "string option"
  editingData :: JsonRecord
  editedRows :: "string set"
  editingEnabled :: bool

text \<open>The value a JavaScript condition takes for true.\<close>

fun truthy :: "jsval \<Rightarrow> bool" where
  "truthy Undefined = False"
| "truthy (Val JNull) = False"
| "truthy (Val (JBool b)) = b"
| "truthy (Val (JNum n)) = (n \<noteq> 0)"
| "truthy (Val (JStr s)) = (s \<noteq> [])"
| "truthy (Val (JArr xs)) = True"
| "truthy (Val (JObj kvs)) = True"
| "truthy (NativeFunction name) = True"
| "truthy ObjectPrototype = True"

subsection \<open>\<^verbatim>\<open>getRowId\<close>\<close>

text \<open>
  Every call in the page passes the index (a position, or the \<open>-1\<close> of
  \<^verbatim>\<open>findIndex\<close>), so the index is an integer here and the random suffix taken for an
  omitted index has no counterpart.
\<close>

definition getRowId :: "string list \<Rightarrow> JsonRecord \<Rightarrow> int \<Rightarrow> string" where
  "getRowId keys row index =
     (let baseId =
        (if truthy (getProp row ''unsd_code'') then String_val (getProp row ''unsd_code'')
         else if truthy (getProp row ''id'') then String_val (getProp row ''id'')
         else if truthy (getProp row ''indicator'') then String_val (getProp row ''indicator'')
         else (case keys of
                 [] \<Rightarrow> ''unknown''
               | firstKey # _ \<Rightarrow>
                   if firstKey \<noteq> [] then String_val (getProp row firstKey) else ''unknown''))
      in baseId @ ''-'' @ showInt index)"

subsection \<open>\<^verbatim>\<open>processJsonData\<close>\<close>

text \<open>
  \<^verbatim>\<open>new Set\<close> keeps the keys in the order of their first insertion. The items are
  \<^verbatim>\<open>JsonRecord\<close>s by the type of the parameter, so the test
  \<^verbatim>\<open>typeof item === 'object' && item !== null\<close> holds of each.
\<close>

definition addKey :: "string list \<Rightarrow> string \<Rightarrow> string list" where
  "addKey allKeys k = (if k \<in> set allKeys then allKeys else allKeys @ [k])"

definition collectKeys :: "JsonRecord list \<Rightarrow> string list" where
  "collectKeys data = foldl (\<lambda>allKeys item. foldl addKey allKeys (Object_keys item)) [] data"

definition priorityColumns :: "string list" where
  "priorityColumns = [''indicator'', ''title'', ''tier'', ''ladmLink'', ''externalData'']"

definition processJsonData :: "JsonRecord list \<Rightarrow> explorer \<Rightarrow> explorer" where
  "processJsonData data st =
     (if data = [] then
        st\<lparr>jsonData := [], jsonKeys := [], rows := [], visibleColumns := []\<rparr>
      else
        let keys = collectKeys data;
            defaultVisible = map (\<lambda>k. (k, k \<in> set priorityColumns)) keys;
            visibleCount = length (filter snd defaultVisible);
            defaultVisible' =
              (if visibleCount = 0
               then map (\<lambda>(k, index). (k, index < 6)) (zip keys [0 ..< length keys])
               else defaultVisible)
        in st\<lparr>jsonData := data, jsonKeys := keys, rows := data, visibleColumns := defaultVisible'\<rparr>)"

subsection \<open>Export\<close>

text \<open>The data \<^verbatim>\<open>exportJsonData\<close> serialises.\<close>

definition dataToExport :: "explorer \<Rightarrow> JsonRecord list" where
  "dataToExport st = (if length (jsonData st) > 0 then jsonData st else rows st)"

subsection \<open>Editing\<close>

text \<open>\<^verbatim>\<open>Array.prototype.findIndex\<close>, the callback taking the element and its index.\<close>

fun findIndexFrom :: "('a \<Rightarrow> int \<Rightarrow> bool) \<Rightarrow> int \<Rightarrow> 'a list \<Rightarrow> int" where
  "findIndexFrom p i [] = - 1"
| "findIndexFrom p i (x # xs) = (if p x i then i else findIndexFrom p (i + 1) xs)"

definition findIndex :: "('a \<Rightarrow> int \<Rightarrow> bool) \<Rightarrow> 'a list \<Rightarrow> int" where
  "findIndex p xs = findIndexFrom p 0 xs"

definition startEditing :: "JsonRecord \<Rightarrow> explorer \<Rightarrow> explorer" where
  "startEditing rowData st =
     (let index = findIndex (\<lambda>r i. JSON_stringify (JObj r) = JSON_stringify (JObj rowData)) (rows st)
      in st\<lparr>editingRowId := Some (getRowId (jsonKeys st) rowData index), editingData := rowData\<rparr>)"

text \<open>
  The identity the table body gives a row of the view (\<^verbatim>\<open>originalIndex\<close> and
  \<^verbatim>\<open>rowId\<close>): the index is found as in \<^verbatim>\<open>startEditing\<close>.
\<close>

definition tableRowId :: "explorer \<Rightarrow> JsonRecord \<Rightarrow> string" where
  "tableRowId st r =
     (let originalIndex = findIndex (\<lambda>row i. JSON_stringify (JObj row) = JSON_stringify (JObj r)) (rows st)
      in getRowId (jsonKeys st) r originalIndex)"

text \<open>
  \<^verbatim>\<open>!editingRowId\<close> holds of \<^verbatim>\<open>null\<close> and of the empty text. The updater of
  \<^verbatim>\<open>setRows\<close> returns the previous list when no row has the identity; the edited set
  and the session are written after it in either case.
\<close>

definition saveEdit :: "explorer \<Rightarrow> explorer" where
  "saveEdit st =
     (case editingRowId st of
        None \<Rightarrow> st
      | Some rowId \<Rightarrow>
          if rowId = [] then st
          else
            let idx = findIndex (\<lambda>r i. getRowId (jsonKeys st) r i = rowId) (rows st);
                st1 = (if idx = - 1 then st
                       else let next = (rows st)[nat idx := editingData st]
                            in st\<lparr>rows := next, jsonData := next\<rparr>)
            in st1\<lparr>editedRows := insert rowId (editedRows st1),
                   editingRowId := None, editingData := []\<rparr>)"

definition cancelEdit :: "explorer \<Rightarrow> explorer" where
  "cancelEdit st = st\<lparr>editingRowId := None, editingData := []\<rparr>"

subsection \<open>Import\<close>

text \<open>
  What \<^verbatim>\<open>JSON.parse\<close> gave for the text of the chosen file: a \<^verbatim>\<open>SyntaxError\<close>, or
  the content, which the page takes for an array of \<^verbatim>\<open>JsonRecord\<close>s when
  \<^verbatim>\<open>Array.isArray\<close> holds and for one \<^verbatim>\<open>JsonRecord\<close> otherwise. The result
  pairs the new state with the text of the alert, if one is raised.
\<close>

datatype js_error = SyntaxError

datatype jsonContent = ContentArray "JsonRecord list" | ContentObject JsonRecord

definition importJsonData :: "(js_error + jsonContent) option \<Rightarrow> explorer \<Rightarrow> explorer \<times> string option" where
  "importJsonData file st =
     (case file of
        None \<Rightarrow> (st, None)
      | Some parsed \<Rightarrow>
          (case parsed of
             Inl error \<Rightarrow> (st, Some ''Invalid JSON file. Please check the format.'')
           | Inr jsonContent \<Rightarrow>
               (let dataArray = (case jsonContent of ContentArray xs \<Rightarrow> xs | ContentObject r \<Rightarrow> [r])
                in (processJsonData dataArray st, None))))"

subsection \<open>The filtered view\<close>

text \<open>The callback of \<^verbatim>\<open>jsonKeys.some\<close>, on the value \<^verbatim>\<open>r[key]\<close>.\<close>

text \<open>
  Of the inherited values, the functions have \<^verbatim>\<open>typeof\<close> \<^verbatim>\<open>'function'\<close> and
  fall to the last branch; the prototype object is an \<^verbatim>\<open>'object'\<close> with no own
  enumerable property, which \<^verbatim>\<open>JSON.stringify\<close> writes as \<^verbatim>\<open>{}\<close>.
\<close>

fun globalMatch :: "string \<Rightarrow> jsval \<Rightarrow> bool" where
  "globalMatch query Undefined = False"
| "globalMatch query (Val JNull) = False"
| "globalMatch query (Val (JArr xs)) =
     includes_js (toLowerCase (join xs '' '')) (toLowerCase query)"
| "globalMatch query (Val (JObj kvs)) =
     includes_js (toLowerCase (JSON_stringify (JObj kvs))) (toLowerCase query)"
| "globalMatch query ObjectPrototype =
     includes_js (toLowerCase ''{}'') (toLowerCase query)"
| "globalMatch query v =
     includes_js (toLowerCase (String_val v)) (toLowerCase query)"

definition okQ :: "explorer \<Rightarrow> JsonRecord \<Rightarrow> bool" where
  "okQ st r =
     (if q st \<noteq> [] then list_ex (\<lambda>key. globalMatch (q st) (getProp r key)) (jsonKeys st) else True)"

text \<open>The callback of \<^verbatim>\<open>Object.entries(columnFilters).every\<close>, past its first line.\<close>

fun columnMatch :: "bool \<Rightarrow> string \<Rightarrow> jsval \<Rightarrow> bool" where
  "columnMatch isExact filterValueLower Undefined = False"
| "columnMatch isExact filterValueLower (Val JNull) = False"
| "columnMatch isExact filterValueLower (Val (JArr xs)) =
     (let joinedValue = toLowerCase (join xs '' '')
      in if isExact then list_ex (\<lambda>item. toLowerCase (String_js item) = filterValueLower) xs
         else includes_js joinedValue filterValueLower)"
| "columnMatch isExact filterValueLower (Val (JObj kvs)) =
     (let jsonValue = toLowerCase (JSON_stringify (JObj kvs))
      in if isExact then jsonValue = filterValueLower
         else includes_js jsonValue filterValueLower)"
| "columnMatch isExact filterValueLower ObjectPrototype =
     (let jsonValue = toLowerCase ''{}''
      in if isExact then jsonValue = filterValueLower
         else includes_js jsonValue filterValueLower)"
| "columnMatch isExact filterValueLower v =
     (let stringValue = toLowerCase (String_val v)
      in if isExact then stringValue = filterValueLower
         else includes_js stringValue filterValueLower)"

text \<open>
  \<^verbatim>\<open>columnExactMatch[filterKey] || false\<close>, taken as a condition. The toggles are an
  object too: a key with no toggle that names an inherited property reads as that
  property, which counts as true.
\<close>

definition isExactMatch :: "(string \<times> bool) list \<Rightarrow> string \<Rightarrow> bool" where
  "isExactMatch exact filterKey =
     (case map_of exact filterKey of Some b \<Rightarrow> b | None \<Rightarrow> truthy (inherited filterKey))"

definition columnFilterOk :: "(string \<times> bool) list \<Rightarrow> JsonRecord \<Rightarrow> string \<times> string \<Rightarrow> bool" where
  "columnFilterOk exact r entry =
     (case entry of (filterKey, filterValue) \<Rightarrow>
        if filterValue = [] then True
        else columnMatch (isExactMatch exact filterKey) (toLowerCase filterValue) (getProp r filterKey))"

definition okColumnFilters :: "explorer \<Rightarrow> JsonRecord \<Rightarrow> bool" where
  "okColumnFilters st r = list_all (columnFilterOk (columnExactMatch st) r) (columnFilters st)"

definition filtered :: "explorer \<Rightarrow> JsonRecord list" where
  "filtered st = filter (\<lambda>r. okQ st r \<and> okColumnFilters st r) (rows st)"

section \<open>The rate calculator\<close>

text \<open>
  \<^verbatim>\<open>computeRates\<close> of \<^verbatim>\<open>src/app/demo-1131/page.tsx\<close>, its numbers read as real
  numbers and \<^verbatim>\<open>null\<close> as \<open>None\<close>.
\<close>

record PopPayload =
  t :: real
  t_n :: real
  population_t :: real
  population_tn :: real

record AreaStats =
  area_t_m2 :: real
  area_tn_m2 :: real
  years :: real
  lcr :: "real option"
  pgr :: "real option"
  ratio :: "real option"

definition computeRates :: "real \<Rightarrow> real \<Rightarrow> PopPayload \<Rightarrow> AreaStats" where
  "computeRates areaT areaTN pop =
     (let years = max 1 (t_n pop - t pop);
          lcr = (if areaT > 0 \<and> areaTN > 0 then Some (ln (areaTN / areaT) / years) else None);
          pgr = (if population_t pop > 0 \<and> population_tn pop > 0
                 then Some (ln (population_tn pop / population_t pop) / years) else None);
          ratio = (if lcr \<noteq> None \<and> pgr \<noteq> None \<and> pgr \<noteq> Some 0
                   then Some (the lcr / the pgr) else None)
      in \<lparr>area_t_m2 = areaT, area_tn_m2 = areaTN, years = years, lcr = lcr, pgr = pgr, ratio = ratio\<rparr>)"

section \<open>The filter as the specification words it\<close>

text \<open>
  The matching semantics of the specification, written from its sentences and not from
  the code, to be compared with \<open>filtered\<close>. A record is a mapping from field names to
  values, a field it does not map being absent. A null or absent value never matches; a
  sequence is joined with single spaces for the substring test and matches exactly when
  some element equals the pattern; a nested mapping is compared as its JSON text; a scalar
  as its text; every comparison ignores case.
\<close>

definition field_value :: "JsonRecord \<Rightarrow> string \<Rightarrow> json option" where
  "field_value r f = map_of r f"

datatype match_mode = Substring | Exact

definition ci_contains :: "string \<Rightarrow> string \<Rightarrow> bool" where
  "ci_contains text pattern = includes_js (toLowerCase text) (toLowerCase pattern)"

definition ci_equal :: "string \<Rightarrow> string \<Rightarrow> bool" where
  "ci_equal text pattern = (toLowerCase text = toLowerCase pattern)"

definition compare_text :: "match_mode \<Rightarrow> string \<Rightarrow> string \<Rightarrow> bool" where
  "compare_text mode text pattern =
     (case mode of Substring \<Rightarrow> ci_contains text pattern | Exact \<Rightarrow> ci_equal text pattern)"

fun spec_field_matches :: "match_mode \<Rightarrow> string \<Rightarrow> json option \<Rightarrow> bool" where
  "spec_field_matches mode pattern None = False"
| "spec_field_matches mode pattern (Some JNull) = False"
| "spec_field_matches mode pattern (Some (JArr xs)) =
     (case mode of
        Substring \<Rightarrow> ci_contains (join xs '' '') pattern
      | Exact \<Rightarrow> (\<exists>x \<in> set xs. ci_equal (String_js x) pattern))"
| "spec_field_matches mode pattern (Some (JObj kvs)) =
     compare_text mode (JSON_stringify (JObj kvs)) pattern"
| "spec_field_matches mode pattern (Some v) = compare_text mode (String_js v) pattern"

text \<open>The global query: substring mode on every known field, one match being enough.\<close>

definition spec_global_query :: "string list \<Rightarrow> string \<Rightarrow> JsonRecord \<Rightarrow> bool" where
  "spec_global_query known query r =
     (\<exists>f \<in> set known. spec_field_matches Substring query (field_value r f))"

text \<open>The per-field filters: every configured entry (field, pattern, mode) has to match.\<close>

definition spec_field_filters :: "(string \<times> string \<times> match_mode) list \<Rightarrow> JsonRecord \<Rightarrow> bool" where
  "spec_field_filters entries r =
     (\<forall>(f, pattern, mode) \<in> set entries. spec_field_matches mode pattern (field_value r f))"

text \<open>
  The configured entries of a page state: the column filters whose pattern is not empty,
  each in exact mode when its exact-match toggle is set and in substring mode otherwise.
\<close>

definition configured :: "explorer \<Rightarrow> (string \<times> string \<times> match_mode) list" where
  "configured st =
     map (\<lambda>(k, p). (k, p, if map_of (columnExactMatch st) k = Some True then Exact else Substring))
       (filter (\<lambda>(k, p). p \<noteq> []) (columnFilters st))"

text \<open>
  The page states in which no known field and no filtered column bears a name that
  every object inherits.
\<close>

definition plainNames :: "explorer \<Rightarrow> bool" where
  "plainNames st =
     list_all (\<lambda>k. k \<notin> set inheritedNames) (jsonKeys st @ map fst (columnFilters st))"

section \<open>The row identity as the specification words it\<close>

text \<open>
  The derived key of the specification: the first non-empty value among the fields
  \<open>unsd_code\<close>, \<open>id\<close>, \<open>indicator\<close>, else the value of the first known field; the
  identity is its text joined to the positional index. Absent, null and the empty text
  are the empty values.
\<close>

fun nonEmpty :: "json option \<Rightarrow> bool" where
  "nonEmpty None = False"
| "nonEmpty (Some JNull) = False"
| "nonEmpty (Some (JStr s)) = (s \<noteq> [])"
| "nonEmpty (Some v) = True"

definition spec_key :: "string list \<Rightarrow> JsonRecord \<Rightarrow> json option" where
  "spec_key known r =
     (case filter (\<lambda>f. nonEmpty (field_value r f)) [''unsd_code'', ''id'', ''indicator''] of
        f # _ \<Rightarrow> field_value r f
      | [] \<Rightarrow> (case known of [] \<Rightarrow> None | f # _ \<Rightarrow> field_value r f))"

definition spec_identity :: "string list \<Rightarrow> JsonRecord \<Rightarrow> int \<Rightarrow> string" where
  "spec_identity known r i =
     (case spec_key known r of None \<Rightarrow> ''undefined'' | Some v \<Rightarrow> String_js v) @ ''-'' @ showInt i"

text \<open>The scalar values: booleans, numbers and text.\<close>

fun scalar :: "json \<Rightarrow> bool" where
  "scalar (JBool b) = True"
| "scalar (JNum n) = True"
| "scalar (JStr s) = True"
| "scalar v = False"

section \<open>Sample data\<close>

text \<open>The state the page starts in: the initial values of its \<^verbatim>\<open>useState\<close> cells.\<close>

definition initial :: explorer where
  "initial = \<lparr>rows = [], jsonData = [], jsonKeys = [], q = [], columnFilters = [],
     columnExactMatch = [], showSettings = False, visibleColumns = [], editingRowId = None,
     editingData = [], editedRows = {}, editingEnabled = False\<rparr>"

text \<open>Two rows in the shape of the crosswalk fixture, and the page after loading them.\<close>

definition rowA :: JsonRecord where
  "rowA = [(''indicator'', JStr ''11.3.1''), (''tier'', JStr ''1''), (''ladmLink'', JArr [JStr ''LA_Parcel'', JStr ''LA_Right''])]"

definition rowB :: JsonRecord where
  "rowB = [(''indicator'', JStr ''11.7.1''), (''tier'', JStr ''10''), (''ladmLink'', JNull)]"

definition loaded :: explorer where
  "loaded = processJsonData [rowA, rowB] initial"

text \<open>The page after importing the file \<^verbatim>\<open>{}\<close>: one record, no known field.\<close>

definition loadedEmptyObject :: explorer where
  "loadedEmptyObject = fst (importJsonData (Some (Inr (ContentObject []))) initial)"

text \<open>
  A session open on the second row; and the page after the second row was saved and the
  first row opened for editing.
\<close>

definition editingB :: explorer where
  "editingB = startEditing rowB loaded"

definition editedB_editingA :: explorer where
  "editedB_editingA = startEditing rowA (saveEdit editingB)"

text \<open>The collection replaced by a load while the session on the second row is open.\<close>

definition replacedWhileEditing :: explorer where
  "replacedWhileEditing = processJsonData [rowA] editingB"

text \<open>A record whose \<open>id\<close> is the number zero, to stand at two positions of a collection.\<close>

definition twin :: JsonRecord where
  "twin = [(''name'', JStr ''Ankara''), (''id'', JNum 0)]"

text \<open>A record whose \<open>id\<close> is the number zero and which has an indicator.\<close>

definition zeroId :: JsonRecord where
  "zeroId = [(''id'', JNum 0), (''name'', JStr ''Ankara''), (''indicator'', JStr ''11.3.1'')]"

text \<open>
  A collection in which one record has fields named as two of the inherited properties,
  and the other has not; then the page with a filter on the column of that name.
\<close>

definition namedAsBuiltins :: JsonRecord where
  "namedAsBuiltins = [(''constructor'', JStr ''x''), (''toString'', JStr ''y'')]"

definition plainRow :: JsonRecord where
  "plainRow = [(''a'', JNum 1)]"

definition builtinsLoaded :: explorer where
  "builtinsLoaded = processJsonData [namedAsBuiltins, plainRow] initial"

definition builtinsFiltering :: explorer where
  "builtinsFiltering =
     builtinsLoaded\<lparr>columnFilters := [(''constructor'', ''function Object() { [native code] }'')]\<rparr>"

text \<open>A search for \<open>parcel\<close> with an exact filter \<open>1\<close> on the tier column.\<close>

definition searching :: explorer where
  "searching = loaded\<lparr>q := ''parcel'', columnFilters := [(''tier'', ''1''), (''title'', [])],
     columnExactMatch := [(''tier'', True)]\<rparr>"

section \<open>Known fields of a loaded collection\<close>

lemma set_foldl_addKey: "set (foldl addKey acc ks) = set acc \<union> set ks"
  by (induction ks arbitrary: acc) (auto simp: addKey_def)

lemma set_collectKeys_from:
  "set (foldl (\<lambda>allKeys item. foldl addKey allKeys (Object_keys item)) acc data)
     = set acc \<union> (\<Union>r \<in> set data. set (Object_keys r))"
  by (induction data arbitrary: acc) (auto simp: set_foldl_addKey)

lemma set_collectKeys: "set (collectKeys data) = (\<Union>r \<in> set data. set (Object_keys r))"
  by (simp add: collectKeys_def set_collectKeys_from)

section \<open>Reads under names that are not inherited\<close>

lemma inherited_plain: "k \<notin> set inheritedNames \<Longrightarrow> inherited k = Undefined"
proof -
  assume a: "k \<notin> set inheritedNames"
  then have "map_of prototypeFunctions k = None"
    by (simp add: inheritedNames_def map_of_eq_None_iff)
  moreover from a have "k \<noteq> ''__proto__''" by (auto simp: inheritedNames_def)
  ultimately show ?thesis by (simp add: inherited_def)
qed

lemma getProp_plain:
  "k \<notin> set inheritedNames \<Longrightarrow>
     getProp r k = (case field_value r k of Some v \<Rightarrow> Val v | None \<Rightarrow> Undefined)"
  by (simp add: getProp_def field_value_def inherited_plain split: option.splits)

lemma getProp_Val_key:
  "getProp r k = Val v \<Longrightarrow> k \<notin> set inheritedNames \<Longrightarrow> k \<in> set (Object_keys r)"
  by (auto simp: getProp_def Object_keys_def inherited_plain
        dest: map_of_SomeD intro: rev_image_eqI split: option.splits)

lemma globalMatch_defined: "globalMatch query v \<Longrightarrow> v \<noteq> Undefined"
  by (cases v) auto

lemma isExactMatch_plain:
  "k \<notin> set inheritedNames \<Longrightarrow> isExactMatch exact k = (map_of exact k = Some True)"
  by (auto simp: isExactMatch_def inherited_plain split: option.splits)

section \<open>The filtered view keeps order and is stable under refiltering\<close>

lemma okQ_rows [simp]: "okQ (st\<lparr>rows := xs\<rparr>) r = okQ st r"
  by (simp add: okQ_def)

lemma okColumnFilters_rows [simp]: "okColumnFilters (st\<lparr>rows := xs\<rparr>) r = okColumnFilters st r"
  by (simp add: okColumnFilters_def)




text \<open>
  When the view is loaded as a collection of its own, \<^verbatim>\<open>processJsonData\<close> recomputes
  the known fields from it. A row that passed the global query through a field of its own
  passes it again, the field being known still; so the view is given back, provided no
  known field bears an inherited name, under which a row matches without having the
  field.
\<close>

lemma okQ_rekey:
  assumes "okQ st r" "r \<in> set data" "list_all (\<lambda>k. k \<notin> set inheritedNames) (jsonKeys st)"
  shows "okQ (st\<lparr>jsonKeys := collectKeys data\<rparr>) r"
proof (cases "q st = []")
  case True
  then show ?thesis by (simp add: okQ_def)
next
  case False
  with assms(1) obtain k where k: "k \<in> set (jsonKeys st)" "globalMatch (q st) (getProp r k)"
    by (auto simp: okQ_def list_ex_iff)
  from k(1) assms(3) have plain: "k \<notin> set inheritedNames" by (simp add: list_all_iff)
  from k(2) have "getProp r k \<noteq> Undefined" by (rule globalMatch_defined)
  with plain obtain v where "getProp r k = Val v"
    by (auto simp: getProp_plain split: option.splits)
  then have "k \<in> set (Object_keys r)" using plain by (rule getProp_Val_key)
  with assms(2) have "k \<in> set (collectKeys data)" by (auto simp: set_collectKeys)
  with k(2) False show ?thesis by (auto simp: okQ_def list_ex_iff)
qed

lemma filtered_load:
  "data \<noteq> [] \<Longrightarrow> filtered (processJsonData data st)
     = filter (\<lambda>r. okQ (st\<lparr>jsonKeys := collectKeys data\<rparr>) r \<and> okColumnFilters st r) data"
  by (simp add: processJsonData_def Let_def filtered_def okQ_def okColumnFilters_def)

lemma filtered_reload:
  assumes "list_all (\<lambda>k. k \<notin> set inheritedNames) (jsonKeys st)"
  shows "filtered (processJsonData (filtered st) st) = filtered st"
proof (cases "filtered st = []")
  case True
  then show ?thesis by (simp add: processJsonData_def filtered_def)
next
  case False
  have "filter (\<lambda>r. okQ (st\<lparr>jsonKeys := collectKeys (filtered st)\<rparr>) r \<and> okColumnFilters st r) (filtered st)
        = filtered st"
  proof (rule filter_True, intro ballI conjI)
    fix r assume r: "r \<in> set (filtered st)"
    then have "okQ st r" by (simp add: filtered_def)
    then show "okQ (st\<lparr>jsonKeys := collectKeys (filtered st)\<rparr>) r"
      using r assms by (rule okQ_rekey)
    from r show "okColumnFilters st r" by (simp add: filtered_def)
  qed
  with False show ?thesis by (simp add: filtered_load)
qed

text \<open>
  Under an inherited name it is otherwise: in the collection with a record that has
  fields \<open>constructor\<close> and \<open>toString\<close>, the search for \<open>native code\<close> shows the
  other record, and the view loaded as a collection shows nothing.
\<close>

lemma filtered_reload_inherited_name:
  "filtered (builtinsLoaded\<lparr>q := ''native code''\<rparr>) = [plainRow]
   \<and> filtered (processJsonData [plainRow] (builtinsLoaded\<lparr>q := ''native code''\<rparr>)) = []"
  by code_simp

section \<open>Cancelling an edit\<close>

text \<open>
  Claim C9. For every collection and every row, \<^verbatim>\<open>startEditing\<close> followed at once by
  \<^verbatim>\<open>cancelEdit\<close> leaves the collection as it was: the rows, the data kept for export
  and hence what \<^verbatim>\<open>exportJsonData\<close> serialises are unchanged, the session is closed
  and the draft is dropped; a \<^verbatim>\<open>saveEdit\<close> after the cancel changes nothing either.
\<close>

theorem cancel_after_start_keeps_collection:
  "rows (cancelEdit (startEditing rowData st)) = rows st
   \<and> jsonData (cancelEdit (startEditing rowData st)) = jsonData st
   \<and> dataToExport (cancelEdit (startEditing rowData st)) = dataToExport st
   \<and> JSON_stringify (JArr (map JObj (dataToExport (cancelEdit (startEditing rowData st)))))
       = JSON_stringify (JArr (map JObj (dataToExport st)))
   \<and> editingRowId (cancelEdit (startEditing rowData st)) = None
   \<and> editingData (cancelEdit (startEditing rowData st)) = []
   \<and> saveEdit (cancelEdit (startEditing rowData st)) = cancelEdit (startEditing rowData st)"
  by (simp add: cancelEdit_def startEditing_def dataToExport_def saveEdit_def Let_def)

theorem cancel_after_start_keeps_collection_witness:
  "editingRowId (startEditing rowB loaded) = Some ''11.7.1-1''
   \<and> rows (cancelEdit (startEditing rowB loaded)) = [rowA, rowB]
   \<and> editingRowId (cancelEdit (startEditing rowB loaded)) = None"
proof -
  have e: "editingRowId (startEditing rowB loaded) = Some ''11.7.1-1''" "rows loaded = [rowA, rowB]"
    by code_simp+
  from cancel_after_start_keeps_collection [of rowB loaded] show ?thesis
    by (simp add: e)
qed

section \<open>The filtered view against the specified predicate\<close>

lemma globalMatch_spec:
  "k \<notin> set inheritedNames \<Longrightarrow>
     globalMatch query (getProp r k) = spec_field_matches Substring query (field_value r k)"
proof (cases "field_value r k")
  case None
  assume "k \<notin> set inheritedNames"
  with None show ?thesis by (simp add: getProp_plain)
next
  case (Some x)
  assume "k \<notin> set inheritedNames"
  with Some show ?thesis
    by (cases x) (simp_all add: getProp_plain compare_text_def ci_contains_def)
qed

lemma columnMatch_spec:
  "k \<notin> set inheritedNames \<Longrightarrow>
     columnMatch isExact (toLowerCase p) (getProp r k)
       = spec_field_matches (if isExact then Exact else Substring) p (field_value r k)"
proof (cases "field_value r k")
  case None
  assume "k \<notin> set inheritedNames"
  with None show ?thesis by (simp add: getProp_plain)
next
  case (Some x)
  assume "k \<notin> set inheritedNames"
  with Some show ?thesis
    by (cases x)
       (simp_all add: getProp_plain compare_text_def ci_contains_def ci_equal_def list_ex_iff)
qed

lemma okQ_spec:
  "list_all (\<lambda>k. k \<notin> set inheritedNames) (jsonKeys st) \<Longrightarrow>
     okQ st r = (q st = [] \<or> spec_global_query (jsonKeys st) (q st) r)"
  by (auto simp: okQ_def spec_global_query_def list_ex_iff list_all_iff globalMatch_spec)

lemma columnFilterOk_spec:
  assumes "k \<notin> set inheritedNames" "p \<noteq> []"
  shows "columnFilterOk exact r (k, p)
           = spec_field_matches (if map_of exact k = Some True then Exact else Substring) p
               (field_value r k)"
  using assms by (simp add: columnFilterOk_def columnMatch_spec isExactMatch_plain)

lemma okColumnFilters_spec:
  assumes "list_all (\<lambda>k. k \<notin> set inheritedNames) (map fst (columnFilters st))"
  shows "okColumnFilters st r = spec_field_filters (configured st) r"
proof -
  have plain: "k \<notin> set inheritedNames" if "(k, p) \<in> set (columnFilters st)" for k p
    using assms that by (force simp: list_all_iff)
  have "okColumnFilters st r
        \<longleftrightarrow> (\<forall>(k, p) \<in> set (columnFilters st). p \<noteq> [] \<longrightarrow> columnFilterOk (columnExactMatch st) r (k, p))"
    by (auto simp: okColumnFilters_def list_all_iff columnFilterOk_def)
  also have "\<dots> \<longleftrightarrow> (\<forall>(k, p) \<in> set (columnFilters st). p \<noteq> [] \<longrightarrow>
      spec_field_matches (if map_of (columnExactMatch st) k = Some True then Exact else Substring) p
        (field_value r k))"
    using plain by (auto simp: columnFilterOk_spec)
  also have "\<dots> \<longleftrightarrow> spec_field_filters (configured st) r"
    by (auto simp: spec_field_filters_def configured_def)
  finally show ?thesis .
qed

text \<open>
  Claim C1, as stated: a record is in the filtered view iff it passes the global query
  predicate (a substring match on some known field) and every configured per-field
  predicate. This fails for the empty query, which the page does not apply at all
  (\<^verbatim>\<open>q ? jsonKeys.some(...) : true\<close>): after importing \<^verbatim>\<open>{}\<close> the page shows
  the one record, although no known field of it matches, there being none.
\<close>

theorem filtered_iff_spec_counterexample:
  "\<not> ([] \<in> set (filtered loadedEmptyObject) \<longleftrightarrow>
        [] \<in> set (rows loadedEmptyObject)
        \<and> spec_global_query (jsonKeys loadedEmptyObject) (q loadedEmptyObject) []
        \<and> spec_field_filters (configured loadedEmptyObject) [])"
proof -
  have "filtered loadedEmptyObject = [ [] ]" "jsonKeys loadedEmptyObject = []"
    by code_simp+
  then show ?thesis by (simp add: spec_global_query_def)
qed

text \<open>
  Claim C1, amended: for every collection and every filter state in which no known field
  and no filtered column bears a name that every object inherits (\<open>constructor\<close>,
  \<open>toString\<close> and the like), a record is in the filtered view iff it is a record of
  the collection, the global query is empty or the record passes the global query
  predicate (substring mode, case ignored, on some known field), and the record passes
  every per-field predicate configured with a pattern that is not empty. Nothing is said
  here of the fields and columns with an inherited name.
\<close>

theorem filtered_iff_spec:
  assumes "plainNames st"
  shows "r \<in> set (filtered st) \<longleftrightarrow>
     r \<in> set (rows st)
     \<and> (q st = [] \<or> spec_global_query (jsonKeys st) (q st) r)
     \<and> spec_field_filters (configured st) r"
proof -
  from assms have "list_all (\<lambda>k. k \<notin> set inheritedNames) (jsonKeys st)"
    and "list_all (\<lambda>k. k \<notin> set inheritedNames) (map fst (columnFilters st))"
    by (simp_all add: plainNames_def)
  then show ?thesis
    by (auto simp: filtered_def okQ_spec okColumnFilters_spec)
qed

text \<open>
  The search for \<open>parcel\<close> with tier exactly \<open>1\<close>: the first sample row passes both
  predicates and is shown, the second fails both and is not.
\<close>

theorem filtered_iff_spec_witness:
  "plainNames searching
   \<and> rowA \<in> set (filtered searching)
   \<and> q searching \<noteq> []
   \<and> spec_global_query (jsonKeys searching) (q searching) rowA
   \<and> spec_field_filters (configured searching) rowA
   \<and> rowB \<notin> set (filtered searching)
   \<and> \<not> spec_global_query (jsonKeys searching) (q searching) rowB
   \<and> \<not> spec_field_filters (configured searching) rowB"
proof -
  have p: "plainNames searching" by code_simp
  have e: "rowA \<in> set (rows searching)" "q searching \<noteq> []"
    "spec_global_query (jsonKeys searching) (q searching) rowA"
    "spec_field_filters (configured searching) rowA"
    "\<not> spec_global_query (jsonKeys searching) (q searching) rowB"
    "\<not> spec_field_filters (configured searching) rowB"
    by code_simp+
  from filtered_iff_spec [OF p, of rowA] filtered_iff_spec [OF p, of rowB]
  show ?thesis by (simp add: e p)
qed

section \<open>The per-field predicate\<close>

lemma lowerChar_digit_one: "lowerChar c = CHR ''1'' \<longleftrightarrow> c = CHR ''1''"
proof
  assume a: "lowerChar c = CHR ''1''"
  show "c = CHR ''1''"
  proof (cases "65 \<le> (of_char c :: nat) \<and> (of_char c :: nat) \<le> 90")
    case True
    then have "lowerChar c = char_of ((of_char c :: nat) + 32)" by (simp add: lowerChar_def)
    with a have "of_char (char_of ((of_char c :: nat) + 32)) = (of_char (CHR ''1'') :: nat)"
      by simp
    with True show ?thesis by simp
  next
    case False
    with a show ?thesis by (simp add: lowerChar_def Let_def)
  qed
next
  assume "c = CHR ''1''"
  then show "lowerChar c = CHR ''1''" by (simp add: lowerChar_def)
qed

lemma toLowerCase_one: "toLowerCase s = ''1'' \<longleftrightarrow> s = ''1''"
  by (cases s) (auto simp: toLowerCase_def lowerChar_digit_one)

text \<open>
  For a field that the record has, or that it lacks under a name that is not inherited,
  and a pattern that is not empty, the predicate of the page is the one specified: null
  and absent never match, a sequence matches by its elements joined with a space or by
  one element, a nested mapping by its JSON text, a scalar by its text. On the field
  \<open>tier\<close> with pattern \<open>1\<close>, exact mode matches a scalar iff its text is \<open>1\<close>, and
  substring mode matches \<open>10\<close> too.
\<close>

lemma column_filter_cases:
  assumes "filterValue \<noteq> []" "k \<notin> set inheritedNames"
  shows
  "(field_value r k = None \<or> field_value r k = Some JNull \<longrightarrow> \<not> columnFilterOk exact r (k, filterValue))
   \<and> (\<forall>xs. field_value r k = Some (JArr xs) \<longrightarrow>
         columnFilterOk exact r (k, filterValue) =
           (if map_of exact k = Some True then \<exists>x \<in> set xs. ci_equal (String_js x) filterValue
            else ci_contains (join xs '' '') filterValue))
   \<and> (\<forall>kvs. field_value r k = Some (JObj kvs) \<longrightarrow>
         columnFilterOk exact r (k, filterValue) =
           (if map_of exact k = Some True then ci_equal (JSON_stringify (JObj kvs)) filterValue
            else ci_contains (JSON_stringify (JObj kvs)) filterValue))
   \<and> (\<forall>v. field_value r k = Some v \<and> scalar v \<longrightarrow>
         columnFilterOk exact r (k, filterValue) =
           (if map_of exact k = Some True then ci_equal (String_js v) filterValue
            else ci_contains (String_js v) filterValue))"
  using assms
  by (auto simp: columnFilterOk_spec compare_text_def elim!: scalar.elims)

lemma tier_filter_cases:
  "(\<forall>v. field_value r ''tier'' = Some v \<and> scalar v \<and> map_of exact ''tier'' = Some True \<longrightarrow>
         columnFilterOk exact r (''tier'', ''1'') = (String_js v = ''1''))
   \<and> (field_value r ''tier'' = Some (JStr ''10'') \<and> map_of exact ''tier'' \<noteq> Some True \<longrightarrow>
         columnFilterOk exact r (''tier'', ''1''))"
proof -
  have plain: "''tier'' \<notin> set inheritedNames" by code_simp
  have ne: "''1'' \<noteq> []" by simp
  have l: "toLowerCase ''1'' = ''1''" by (simp add: toLowerCase_def lowerChar_def)
  have c: "ci_contains ''10'' ''1''" by code_simp
  show ?thesis
    by (auto simp: columnFilterOk_spec [OF plain ne] compare_text_def ci_equal_def l
          toLowerCase_one c elim!: scalar.elims)
qed

text \<open>
  Claim C2 says that an absent value never matches a pattern that is not empty. The page
  tests the value read for \<^verbatim>\<open>null\<close> and \<^verbatim>\<open>undefined\<close>, but \<^verbatim>\<open>r[filterKey]\<close>
  gives the inherited function where the record has no field of an inherited name. In
  the collection of a record with the fields \<open>constructor\<close> and \<open>toString\<close> and a
  record with the field \<open>a\<close> alone, the filter on column \<open>constructor\<close> with the text of
  the function \<open>Object\<close> matches the second record, which has no such field, and shows
  it alone; no toggle is set, the column being in exact mode because the toggles are read
  in the same way. The search for \<open>native code\<close> shows the same record.
\<close>

theorem absent_field_matches_inherited:
  "field_value plainRow ''constructor'' = None
   \<and> \<not> spec_field_matches Exact ''function Object() { [native code] }'' (field_value plainRow ''constructor'')
   \<and> \<not> spec_field_matches Substring ''function Object() { [native code] }'' (field_value plainRow ''constructor'')
   \<and> columnFilterOk [] plainRow (''constructor'', ''function Object() { [native code] }'')
   \<and> rows builtinsFiltering = [namedAsBuiltins, plainRow]
   \<and> columnExactMatch builtinsFiltering = []
   \<and> filtered builtinsFiltering = [plainRow]
   \<and> filtered (builtinsLoaded\<lparr>q := ''native code''\<rparr>) = [plainRow]"
  by code_simp

section \<open>Import\<close>

lemma rows_processJsonData: "rows (processJsonData data st) = data"
  by (simp add: processJsonData_def Let_def)

lemma jsonData_processJsonData: "jsonData (processJsonData data st) = data"
  by (simp add: processJsonData_def Let_def)

lemma jsonKeys_processJsonData: "jsonKeys (processJsonData data st) = collectKeys data"
  by (simp add: processJsonData_def Let_def collectKeys_def)

lemma foldl_addKey_distinct:
  "distinct (acc @ ks) \<Longrightarrow> foldl addKey acc ks = acc @ ks"
  by (induction ks arbitrary: acc) (auto simp: addKey_def)

lemma collectKeys_single: "distinct (Object_keys r) \<Longrightarrow> collectKeys [r] = Object_keys r"
  using foldl_addKey_distinct [of "[]" "Object_keys r"] by (simp add: collectKeys_def)

text \<open>
  Claim C5. The import wraps a parsed top-level object that is not an array into a
  collection of one record, whose known fields are the fields of the object (importing
  \<^verbatim>\<open>{"a":1}\<close> gives one record with the known field \<open>a\<close>), and takes a top-level array
  as the collection itself. When parsing the file failed, the import raises the alert and
  returns the state it was given: the collection, like everything else, is untouched.
\<close>

theorem import_wraps_or_aborts:
  "importJsonData (Some (Inr (ContentObject r))) st = (processJsonData [r] st, None)
   \<and> rows (fst (importJsonData (Some (Inr (ContentObject r))) st)) = [r]
   \<and> set (jsonKeys (fst (importJsonData (Some (Inr (ContentObject r))) st))) = set (Object_keys r)
   \<and> (distinct (Object_keys r) \<longrightarrow>
        jsonKeys (fst (importJsonData (Some (Inr (ContentObject r))) st)) = Object_keys r)
   \<and> rows (fst (importJsonData (Some (Inr (ContentObject [(''a'', JNum 1)]))) st)) = [ [(''a'', JNum 1)] ]
   \<and> jsonKeys (fst (importJsonData (Some (Inr (ContentObject [(''a'', JNum 1)]))) st)) = [''a'']
   \<and> importJsonData (Some (Inr (ContentArray xs))) st = (processJsonData xs st, None)
   \<and> rows (fst (importJsonData (Some (Inr (ContentArray xs))) st)) = xs
   \<and> jsonData (fst (importJsonData (Some (Inr (ContentArray xs))) st)) = xs
   \<and> importJsonData (Some (Inl SyntaxError)) st
       = (st, Some ''Invalid JSON file. Please check the format.'')"
proof -
  have a: "collectKeys [ [(''a'', JNum 1)] ] = [''a'']"
    by (simp add: collectKeys_def Object_keys_def addKey_def)
  show ?thesis
    by (simp add: importJsonData_def rows_processJsonData jsonData_processJsonData
          jsonKeys_processJsonData set_collectKeys collectKeys_single a)
qed

text \<open>
  Importing the first sample row as a single object over the loaded page, and a file that
  does not parse.
\<close>

theorem import_wraps_or_aborts_witness:
  "distinct (Object_keys rowA)
   \<and> jsonKeys (fst (importJsonData (Some (Inr (ContentObject rowA))) loaded))
       = [''indicator'', ''tier'', ''ladmLink'']
   \<and> rows (fst (importJsonData (Some (Inr (ContentObject rowA))) loaded)) = [rowA]
   \<and> rows (fst (importJsonData (Some (Inl SyntaxError)) loaded)) = [rowA, rowB]"
proof -
  note t = import_wraps_or_aborts [of rowA loaded "[]"]
  have e: "distinct (Object_keys rowA)" "Object_keys rowA = [''indicator'', ''tier'', ''ladmLink'']"
    "rows loaded = [rowA, rowB]"
    by code_simp+
  from t e(1)
  have 1: "jsonKeys (fst (importJsonData (Some (Inr (ContentObject rowA))) loaded)) = Object_keys rowA"
    by blast
  from t have 2: "rows (fst (importJsonData (Some (Inr (ContentObject rowA))) loaded)) = [rowA]"
    by blast
  from t have 3: "importJsonData (Some (Inl SyntaxError)) loaded
                    = (loaded, Some ''Invalid JSON file. Please check the format.'')"
    by blast
  show ?thesis by (simp add: e 1 2 3)
qed

section \<open>A load and the edit overlay\<close>

text \<open>
  \<^verbatim>\<open>processJsonData\<close> writes the collection, the known fields and the column
  visibility, and nothing else: neither the filter state nor the edit overlay.
\<close>

lemma processJsonData_frame:
  "editedRows (processJsonData data st) = editedRows st
   \<and> editingRowId (processJsonData data st) = editingRowId st
   \<and> editingData (processJsonData data st) = editingData st
   \<and> q (processJsonData data st) = q st
   \<and> columnFilters (processJsonData data st) = columnFilters st
   \<and> columnExactMatch (processJsonData data st) = columnExactMatch st"
  by (simp add: processJsonData_def Let_def)

text \<open>
  Claim C6 says that a load clears the edit overlay (the set of edited identities and any
  open edit session) and keeps the filter state. The page keeps the filter state, but it
  keeps the overlay too: with the second sample row saved and the first one open for
  editing, loading or importing a new collection leaves the edited identity
  \<open>11.7.1-1\<close> and the open session \<open>11.3.1-0\<close> with its draft in place, over a
  collection that has no row at index 1. Only the handler of the reset button clears the
  overlay after its load.
\<close>

theorem load_keeps_edit_overlay:
  "editedRows editedB_editingA = {''11.7.1-1''}
   \<and> editingRowId editedB_editingA = Some ''11.3.1-0''
   \<and> rows (processJsonData [rowB] editedB_editingA) = [rowB]
   \<and> editedRows (processJsonData [rowB] editedB_editingA) = {''11.7.1-1''}
   \<and> editingRowId (processJsonData [rowB] editedB_editingA) = Some ''11.3.1-0''
   \<and> editingData (processJsonData [rowB] editedB_editingA) = rowA
   \<and> editedRows (fst (importJsonData (Some (Inr (ContentArray [rowB]))) editedB_editingA))
       = {''11.7.1-1''}
   \<and> editingRowId (fst (importJsonData (Some (Inr (ContentArray [rowB]))) editedB_editingA))
       = Some ''11.3.1-0''"
proof -
  have e: "editedRows editedB_editingA = {''11.7.1-1''}"
    "editingRowId editedB_editingA = Some ''11.3.1-0''"
    "editingData editedB_editingA = rowA"
    by code_simp+
  show ?thesis
    by (simp add: importJsonData_def processJsonData_frame rows_processJsonData e)
qed

section \<open>Starting an edit while another is open\<close>

text \<open>
  Claim C8, as stated: \<^verbatim>\<open>startEditing\<close> invoked while a session is open for another
  identity is rejected and the open session stays. The page has no such check: with the
  session \<open>11.7.1-1\<close> open on the second sample row, starting to edit the first row
  replaces the session and its draft.
\<close>

theorem startEditing_conflict_counterexample:
  "editingRowId editingB = Some ''11.7.1-1''
   \<and> editingData editingB = rowB
   \<and> \<not> (editingRowId (startEditing rowA editingB) = editingRowId editingB
          \<and> editingData (startEditing rowA editingB) = editingData editingB)"
  by code_simp

text \<open>
  Claim C8, amended: \<^verbatim>\<open>startEditing\<close> invoked while an edit session is open, for
  whatever identity, is not rejected: it replaces the open session by one for the given
  row, under the identity of that row at the index of the first row with the same JSON
  text, with a copy of the row as the draft; the collection and the edited set stay as
  they are.
\<close>

theorem startEditing_replaces_session:
  assumes "editingRowId st = Some openId"
  shows "editingRowId (startEditing rowData st)
           = Some (getRowId (jsonKeys st) rowData
               (findIndex (\<lambda>r i. JSON_stringify (JObj r) = JSON_stringify (JObj rowData)) (rows st)))
         \<and> editingData (startEditing rowData st) = rowData
         \<and> rows (startEditing rowData st) = rows st
         \<and> jsonData (startEditing rowData st) = jsonData st
         \<and> editedRows (startEditing rowData st) = editedRows st"
  by (simp add: startEditing_def Let_def)

theorem startEditing_replaces_session_witness:
  "editingRowId editingB = Some ''11.7.1-1''
   \<and> editingRowId (startEditing rowA editingB) = Some ''11.3.1-0''
   \<and> editingData (startEditing rowA editingB) = rowA
   \<and> rows (startEditing rowA editingB) = [rowA, rowB]"
proof -
  have e: "editingRowId editingB = Some ''11.7.1-1''"
    "getRowId (jsonKeys editingB) rowA
       (findIndex (\<lambda>r i. JSON_stringify (JObj r) = JSON_stringify (JObj rowA)) (rows editingB))
     = ''11.3.1-0''"
    "rows editingB = [rowA, rowB]"
    by code_simp+
  from startEditing_replaces_session [OF e(1), of rowA, unfolded e(2)] show ?thesis
    by (simp add: e(1,3))
qed

section \<open>Saving under an identity no row has\<close>

lemma findIndexFrom_none:
  "0 \<le> k \<Longrightarrow> findIndexFrom p k xs = - 1 \<longleftrightarrow> (\<forall>i < length xs. \<not> p (xs ! i) (k + int i))"
proof (induction xs arbitrary: k)
  case Nil
  then show ?case by simp
next
  case (Cons x xs)
  have split: "(\<forall>i < length (x # xs). \<not> p ((x # xs) ! i) (k + int i))
        \<longleftrightarrow> \<not> p x k \<and> (\<forall>i < length xs. \<not> p (xs ! i) (k + (1 + int i)))"
  proof
    assume a: "\<forall>i < length (x # xs). \<not> p ((x # xs) ! i) (k + int i)"
    then have "\<not> p ((x # xs) ! 0) (k + int 0)" by blast
    moreover have "\<not> p (xs ! i) (k + (1 + int i))" if "i < length xs" for i
      using a [rule_format, of "Suc i"] that by simp
    ultimately show "\<not> p x k \<and> (\<forall>i < length xs. \<not> p (xs ! i) (k + (1 + int i)))" by simp
  next
    assume a: "\<not> p x k \<and> (\<forall>i < length xs. \<not> p (xs ! i) (k + (1 + int i)))"
    show "\<forall>i < length (x # xs). \<not> p ((x # xs) ! i) (k + int i)"
    proof (intro allI impI)
      fix i assume "i < length (x # xs)"
      then show "\<not> p ((x # xs) ! i) (k + int i)" using a by (cases i) simp_all
    qed
  qed
  from Cons.prems have "0 \<le> k + 1" by simp
  from Cons.IH [OF this] Cons.prems show ?case
    unfolding split by (simp add: add.assoc)
qed

lemma findIndex_none: "findIndex p xs = - 1 \<longleftrightarrow> (\<forall>i < length xs. \<not> p (xs ! i) (int i))"
  using findIndexFrom_none [of 0 p xs] by (simp add: findIndex_def)

text \<open>
  Claim C10. When \<^verbatim>\<open>saveEdit\<close> runs with a session open whose identity no row of the
  current collection has at its index, the collection is left unchanged, and yet the
  identity is added to the edited set and the session is closed with its draft dropped:
  the edited set then holds an identity that matches no record of the collection.
\<close>

theorem saveEdit_stale_identity:
  assumes "editingRowId st = Some rowId" and "rowId \<noteq> []"
    and "\<forall>i < length (rows st). getRowId (jsonKeys st) (rows st ! i) (int i) \<noteq> rowId"
  shows "rows (saveEdit st) = rows st
         \<and> jsonData (saveEdit st) = jsonData st
         \<and> editedRows (saveEdit st) = insert rowId (editedRows st)
         \<and> editingRowId (saveEdit st) = None
         \<and> editingData (saveEdit st) = []
         \<and> rowId \<in> editedRows (saveEdit st)
         \<and> (\<forall>i < length (rows (saveEdit st)).
               getRowId (jsonKeys (saveEdit st)) (rows (saveEdit st) ! i) (int i) \<noteq> rowId)"
proof -
  from assms(3) have "findIndex (\<lambda>r i. getRowId (jsonKeys st) r i = rowId) (rows st) = - 1"
    by (simp add: findIndex_none)
  with assms show ?thesis by (simp add: saveEdit_def Let_def)
qed

text \<open>
  The collection was replaced by the first sample row alone while the session on the
  second row was open: saving keeps the one row and marks \<open>11.7.1-1\<close> as edited, the
  identity of the one row being \<open>11.3.1-0\<close>.
\<close>

theorem saveEdit_stale_identity_witness:
  "editingRowId replacedWhileEditing = Some ''11.7.1-1''
   \<and> rows replacedWhileEditing = [rowA]
   \<and> getRowId (jsonKeys replacedWhileEditing) rowA 0 = ''11.3.1-0''
   \<and> rows (saveEdit replacedWhileEditing) = [rowA]
   \<and> editedRows (saveEdit replacedWhileEditing) = {''11.7.1-1''}
   \<and> editingRowId (saveEdit replacedWhileEditing) = None"
proof -
  have e: "editingRowId replacedWhileEditing = Some ''11.7.1-1''"
    "rows replacedWhileEditing = [rowA]"
    "getRowId (jsonKeys replacedWhileEditing) rowA 0 = ''11.3.1-0''"
    "editedRows replacedWhileEditing = {}"
    by code_simp+
  have ne: "''11.7.1-1'' \<noteq> []" by simp
  have none: "\<forall>i < length (rows replacedWhileEditing).
      getRowId (jsonKeys replacedWhileEditing) (rows replacedWhileEditing ! i) (int i) \<noteq> ''11.7.1-1''"
    by (simp add: e)
  from saveEdit_stale_identity [OF e(1) ne none] show ?thesis
    by (simp add: e)
qed

section \<open>Row identities\<close>

lemma digit_inj: "a < 10 \<Longrightarrow> b < 10 \<Longrightarrow> digit a = digit b \<Longrightarrow> a = b"
proof -
  assume a: "a < 10" "b < 10" "digit a = digit b"
  then have "(of_char (char_of (48 + a)) :: nat) = of_char (char_of (48 + b))"
    by (simp add: digit_def)
  with a(1,2) show "a = b" by simp
qed

lemma digit_not_minus: "d < 10 \<Longrightarrow> digit d \<noteq> CHR ''-''"
proof
  assume a: "d < 10" "digit d = CHR ''-''"
  then have "(of_char (char_of (48 + d)) :: nat) = of_char (CHR ''-'')"
    by (simp add: digit_def)
  with a(1) show False by simp
qed

lemma showNat_nonempty: "showNat n \<noteq> []"
  by (subst showNat.simps) simp

lemma showNat_no_minus: "CHR ''-'' \<notin> set (showNat n)"
proof (induction n rule: showNat.induct)
  case (1 n)
  show ?case
  proof (cases "n < 10")
    case True
    then have "showNat n = [digit n]" by (simp add: showNat.simps [of n])
    with True show ?thesis using digit_not_minus [of n] by auto
  next
    case False
    then have "showNat n = showNat (n div 10) @ [digit (n mod 10)]"
      by (simp add: showNat.simps [of n])
    moreover have "CHR ''-'' \<notin> set (showNat (n div 10))" using False by (rule "1.IH")
    moreover have "digit (n mod 10) \<noteq> CHR ''-''" by (rule digit_not_minus) simp
    ultimately show ?thesis by auto
  qed
qed

text \<open>Two numbers with the same decimal text are the same number.\<close>

lemma showNat_inj: "showNat m = showNat n \<Longrightarrow> m = n"
proof (induction m arbitrary: n rule: showNat.induct)
  case (1 m)
  show ?case
  proof (cases "m < 10")
    case m: True
    show ?thesis
    proof (cases "n < 10")
      case True
      with m "1.prems" show ?thesis
        by (simp add: showNat.simps [of m] showNat.simps [of n] digit_inj)
    next
      case False
      with m "1.prems" show ?thesis
        by (simp add: showNat.simps [of m] showNat.simps [of n] showNat_nonempty [symmetric])
    qed
  next
    case m: False
    show ?thesis
    proof (cases "n < 10")
      case True
      with m "1.prems" show ?thesis
        by (simp add: showNat.simps [of m] showNat.simps [of n] showNat_nonempty)
    next
      case False
      with m "1.prems" have e: "showNat (m div 10) = showNat (n div 10)"
        "digit (m mod 10) = digit (n mod 10)"
        by (simp_all add: showNat.simps [of m] showNat.simps [of n])
      from "1.IH" [OF m e(1)] have "m div 10 = n div 10" .
      moreover from e(2) have "m mod 10 = n mod 10" by (simp add: digit_inj)
      ultimately show ?thesis by (metis div_mult_mod_eq)
    qed
  qed
qed

lemma takeWhile_until:
  "\<not> P y \<Longrightarrow> \<forall>x \<in> set xs. P x \<Longrightarrow> takeWhile P (xs @ y # ys) = xs"
  by (induction xs) auto

text \<open>What follows the last hyphen of a text is determined by the text.\<close>

lemma suffix_after_last_minus:
  assumes "a @ CHR ''-'' # s = b @ CHR ''-'' # u"
    and "CHR ''-'' \<notin> set s" and "CHR ''-'' \<notin> set u"
  shows "s = u"
proof -
  have "takeWhile (\<lambda>c. c \<noteq> CHR ''-'') (rev s @ CHR ''-'' # rev a) = rev s"
    using assms(2) by (intro takeWhile_until) auto
  moreover have "takeWhile (\<lambda>c. c \<noteq> CHR ''-'') (rev u @ CHR ''-'' # rev b) = rev u"
    using assms(3) by (intro takeWhile_until) auto
  moreover from assms(1) have "rev (a @ CHR ''-'' # s) = rev (b @ CHR ''-'' # u)" by simp
  then have "rev s @ CHR ''-'' # rev a = rev u @ CHR ''-'' # rev b" by simp
  ultimately have "rev s = rev u" by simp
  then show ?thesis by simp
qed

lemma getRowId_suffix: "\<exists>base. getRowId keys row i = base @ CHR ''-'' # showInt i"
  by (simp add: getRowId_def Let_def)

lemma getRowId_index_inj:
  assumes "0 \<le> i" "0 \<le> j" "getRowId keys row i = getRowId keys' row' j"
  shows "i = j"
proof -
  obtain a where a: "getRowId keys row i = a @ CHR ''-'' # showNat (nat i)"
    using getRowId_suffix [of keys row i] assms(1) by (auto simp: showInt_def)
  obtain b where b: "getRowId keys' row' j = b @ CHR ''-'' # showNat (nat j)"
    using getRowId_suffix [of keys' row' j] assms(2) by (auto simp: showInt_def)
  from a b assms(3) have "a @ CHR ''-'' # showNat (nat i) = b @ CHR ''-'' # showNat (nat j)"
    by simp
  then have "showNat (nat i) = showNat (nat j)"
    by (rule suffix_after_last_minus) (rule showNat_no_minus)+
  then have "nat i = nat j" by (rule showNat_inj)
  with assms(1,2) show ?thesis by simp
qed

text \<open>
  \<^verbatim>\<open>findIndex\<close> with a test that some element passes gives the position of an
  element that passes.
\<close>

lemma findIndexFrom_found:
  "\<exists>x \<in> set xs. P x \<Longrightarrow>
     k \<le> findIndexFrom (\<lambda>r i. P r) k xs
     \<and> nat (findIndexFrom (\<lambda>r i. P r) k xs - k) < length xs
     \<and> P (xs ! nat (findIndexFrom (\<lambda>r i. P r) k xs - k))"
proof (induction xs arbitrary: k)
  case Nil
  then show ?case by simp
next
  case (Cons x xs)
  show ?case
  proof (cases "P x")
    case True
    then show ?thesis by simp
  next
    case False
    with Cons.prems have "\<exists>x \<in> set xs. P x" by simp
    from Cons.IH [OF this, of "k + 1"]
    have ih: "k + 1 \<le> findIndexFrom (\<lambda>r i. P r) (k + 1) xs"
      "nat (findIndexFrom (\<lambda>r i. P r) (k + 1) xs - (k + 1)) < length xs"
      "P (xs ! nat (findIndexFrom (\<lambda>r i. P r) (k + 1) xs - (k + 1)))"
      by simp_all
    from ih(1) have s: "nat (findIndexFrom (\<lambda>r i. P r) (k + 1) xs - k)
        = Suc (nat (findIndexFrom (\<lambda>r i. P r) (k + 1) xs - (k + 1)))"
      by simp
    from False ih show ?thesis by (simp add: s)
  qed
qed

lemma findIndex_found:
  assumes "\<exists>x \<in> set xs. P x"
  shows "0 \<le> findIndex (\<lambda>r i. P r) xs \<and> P (xs ! nat (findIndex (\<lambda>r i. P r) xs))"
  using findIndexFrom_found [OF assms, of 0] by (simp add: findIndex_def)

text \<open>Two rows of the collection whose JSON texts differ have different identities in the table.\<close>

lemma tableRowId_distinct:
  assumes "r \<in> set (rows st)" "r' \<in> set (rows st)"
    and "JSON_stringify (JObj r) \<noteq> JSON_stringify (JObj r')"
  shows "tableRowId st r \<noteq> tableRowId st r'"
proof
  assume eq: "tableRowId st r = tableRowId st r'"
  define i where "i = findIndex (\<lambda>row i. JSON_stringify (JObj row) = JSON_stringify (JObj r)) (rows st)"
  define j where "j = findIndex (\<lambda>row i. JSON_stringify (JObj row) = JSON_stringify (JObj r')) (rows st)"
  from assms(1) have "\<exists>x \<in> set (rows st). JSON_stringify (JObj x) = JSON_stringify (JObj r)" by blast
  from findIndex_found [OF this]
  have i: "0 \<le> i" "JSON_stringify (JObj (rows st ! nat i)) = JSON_stringify (JObj r)"
    by (simp_all add: i_def)
  from assms(2) have "\<exists>x \<in> set (rows st). JSON_stringify (JObj x) = JSON_stringify (JObj r')" by blast
  from findIndex_found [OF this]
  have j: "0 \<le> j" "JSON_stringify (JObj (rows st ! nat j)) = JSON_stringify (JObj r')"
    by (simp_all add: j_def)
  from eq have "getRowId (jsonKeys st) r i = getRowId (jsonKeys st) r' j"
    by (simp add: tableRowId_def i_def j_def)
  with i(1) j(1) have "i = j" by (rule getRowId_index_inj)
  with i(2) j(2) assms(3) show False by simp
qed

text \<open>
  Claim C7, as stated: the identity is the first non-empty value among the fields
  \<open>unsd_code\<close>, \<open>id\<close>, \<open>indicator\<close>, else the value of the first known field, joined
  to the index. The page passes over a value that is present but counts as false in a
  condition (\<^verbatim>\<open>if (row.id)\<close>): for a record with the \<open>id\<close> zero and an indicator, at
  index 5, the identity is made of the indicator and not of the \<open>id\<close>.
\<close>

theorem getRowId_identity_counterexample:
  "nonEmpty (field_value zeroId ''id'')
   \<and> spec_identity [''id'', ''name'', ''indicator''] zeroId 5 = ''0-5''
   \<and> getRowId [''id'', ''name'', ''indicator''] zeroId 5 = ''11.3.1-5''
   \<and> \<not> (getRowId [''id'', ''name'', ''indicator''] zeroId 5
          = spec_identity [''id'', ''name'', ''indicator''] zeroId 5)"
  by code_simp

text \<open>
  Claim C7, amended. For every record and index, the identity \<^verbatim>\<open>getRowId\<close> gives is a
  base text, a hyphen and the index. The base is the text of the first of the fields
  \<open>unsd_code\<close>, \<open>id\<close>, \<open>indicator\<close> whose value counts as true in a JavaScript
  condition (absent, \<^verbatim>\<open>null\<close>, \<^verbatim>\<open>false\<close>, zero and the empty text do not); else the
  text of what the first known field reads as in the record, when there is a first known
  field and its name is not empty; else the text \<open>unknown\<close>. The identities computed at
  two different positions differ, whatever the two records hold. In the table and in
  \<^verbatim>\<open>startEditing\<close>, where the page takes for the index the position of the first row
  with the same JSON text, two rows of the collection whose JSON texts differ have
  different identities; of rows with the same JSON text nothing is said here.
\<close>

theorem getRowId_identity:
  "(truthy (getProp row ''unsd_code'') \<longrightarrow>
      getRowId keys row i = String_val (getProp row ''unsd_code'') @ ''-'' @ showInt i)
   \<and> (\<not> truthy (getProp row ''unsd_code'') \<and> truthy (getProp row ''id'') \<longrightarrow>
      getRowId keys row i = String_val (getProp row ''id'') @ ''-'' @ showInt i)
   \<and> (\<not> truthy (getProp row ''unsd_code'') \<and> \<not> truthy (getProp row ''id'')
        \<and> truthy (getProp row ''indicator'') \<longrightarrow>
      getRowId keys row i = String_val (getProp row ''indicator'') @ ''-'' @ showInt i)
   \<and> (\<forall>firstKey more. \<not> truthy (getProp row ''unsd_code'') \<and> \<not> truthy (getProp row ''id'')
        \<and> \<not> truthy (getProp row ''indicator'') \<and> keys = firstKey # more \<and> firstKey \<noteq> [] \<longrightarrow>
      getRowId keys row i = String_val (getProp row firstKey) @ ''-'' @ showInt i)
   \<and> (\<forall>more. \<not> truthy (getProp row ''unsd_code'') \<and> \<not> truthy (getProp row ''id'')
        \<and> \<not> truthy (getProp row ''indicator'') \<and> (keys = [] \<or> keys = [] # more) \<longrightarrow>
      getRowId keys row i = ''unknown'' @ ''-'' @ showInt i)
   \<and> (\<forall>row' j. 0 \<le> i \<and> 0 \<le> j \<and> i \<noteq> j \<longrightarrow> getRowId keys row i \<noteq> getRowId keys row' j)
   \<and> (\<forall>r r'. r \<in> set (rows st) \<and> r' \<in> set (rows st)
        \<and> JSON_stringify (JObj r) \<noteq> JSON_stringify (JObj r') \<longrightarrow>
      tableRowId st r \<noteq> tableRowId st r')"
proof (intro conjI allI impI)
  fix row' j assume "0 \<le> i \<and> 0 \<le> j \<and> i \<noteq> j"
  then show "getRowId keys row i \<noteq> getRowId keys row' j"
    using getRowId_index_inj [of i j keys row keys row'] by blast
next
  fix r r' assume "r \<in> set (rows st) \<and> r' \<in> set (rows st)
        \<and> JSON_stringify (JObj r) \<noteq> JSON_stringify (JObj r')"
  then show "tableRowId st r \<noteq> tableRowId st r'"
    using tableRowId_distinct [of r st r'] by blast
next
  fix more assume "\<not> truthy (getProp row ''unsd_code'') \<and> \<not> truthy (getProp row ''id'')
        \<and> \<not> truthy (getProp row ''indicator'') \<and> (keys = [] \<or> keys = [] # more)"
  then show "getRowId keys row i = ''unknown'' @ ''-'' @ showInt i"
    by (auto simp: getRowId_def)
qed (simp_all add: getRowId_def)

text \<open>
  A record whose \<open>id\<close> is zero takes its base from the first known field, at positions
  0 and 1 alike, and the two identities differ in the index; the two sample rows, whose
  JSON texts differ, have different identities in the table.
\<close>

theorem getRowId_identity_witness:
  "\<not> truthy (getProp twin ''id'')
   \<and> getRowId [''name'', ''id''] twin 0 = ''Ankara-0''
   \<and> getRowId [''name'', ''id''] twin 1 = ''Ankara-1''
   \<and> getRowId [''name'', ''id''] twin 0 \<noteq> getRowId [''name'', ''id''] twin 1
   \<and> getRowId [''indicator'', ''tier'', ''ladmLink''] rowA 0 = ''11.3.1-0''
   \<and> JSON_stringify (JObj rowA) \<noteq> JSON_stringify (JObj rowB)
   \<and> tableRowId loaded rowA \<noteq> tableRowId loaded rowB"
proof -
  have e: "\<not> truthy (getProp twin ''unsd_code'')" "\<not> truthy (getProp twin ''id'')"
    "\<not> truthy (getProp twin ''indicator'')"
    "String_val (getProp twin ''name'') @ ''-'' @ showInt 0 = ''Ankara-0''"
    "String_val (getProp twin ''name'') @ ''-'' @ showInt 1 = ''Ankara-1''"
    "\<not> truthy (getProp rowA ''unsd_code'')" "\<not> truthy (getProp rowA ''id'')"
    "truthy (getProp rowA ''indicator'')"
    "String_val (getProp rowA ''indicator'') @ ''-'' @ showInt 0 = ''11.3.1-0''"
    by code_simp+
  have m: "rowA \<in> set (rows loaded)" "rowB \<in> set (rows loaded)"
    "JSON_stringify (JObj rowA) \<noteq> JSON_stringify (JObj rowB)"
    by code_simp+
  note t0 = getRowId_identity [where row = twin and keys = "[''name'', ''id'']" and i = 0 and st = loaded]
  note t1 = getRowId_identity [where row = twin and keys = "[''name'', ''id'']" and i = 1 and st = loaded]
  note ta = getRowId_identity [where row = rowA and keys = "[''indicator'', ''tier'', ''ladmLink'']"
      and i = 0 and st = loaded]
  from t0 e have 0: "getRowId [''name'', ''id''] twin 0 = ''Ankara-0''" by simp
  from t1 e have 1: "getRowId [''name'', ''id''] twin 1 = ''Ankara-1''" by simp
  from t0 have 2: "getRowId [''name'', ''id''] twin 0 \<noteq> getRowId [''name'', ''id''] twin 1"
    by simp
  from ta e have 3: "getRowId [''indicator'', ''tier'', ''ladmLink''] rowA 0 = ''11.3.1-0''" by simp
  from ta m have 4: "tableRowId loaded rowA \<noteq> tableRowId loaded rowB" by blast
  from e(2) 0 1 2 3 4 m(3) show ?thesis by blast
qed

text \<open>
  Rows with the same JSON text are another matter. \<^verbatim>\<open>saveEdit\<close> passes the position
  of the row, but \<^verbatim>\<open>startEditing\<close> and the table body pass the index of the first row
  with the same JSON text: the second of two equal rows is shown and edited under the
  identity of the first, against the comment in \<^verbatim>\<open>getRowId\<close> that the index is there
  for uniqueness even with duplicate data.
\<close>

lemma startEditing_second_of_equal_rows:
  "rows (processJsonData [twin, twin] initial) = [twin, twin]
   \<and> tableRowId (processJsonData [twin, twin] initial) twin = ''Ankara-0''
   \<and> editingRowId (startEditing twin (processJsonData [twin, twin] initial)) = Some ''Ankara-0''"
  by code_simp

section \<open>Growth rates\<close>

lemma years_computeRates: "years (computeRates areaT areaTN pop) = max 1 (t_n pop - t pop)"
  by (simp add: computeRates_def Let_def)

lemma lcr_computeRates:
  "lcr (computeRates areaT areaTN pop)
     = (if 0 < areaT \<and> 0 < areaTN then Some (ln (areaTN / areaT) / max 1 (t_n pop - t pop)) else None)"
  by (simp add: computeRates_def Let_def)

lemma pgr_computeRates:
  "pgr (computeRates areaT areaTN pop)
     = (if 0 < population_t pop \<and> 0 < population_tn pop
        then Some (ln (population_tn pop / population_t pop) / max 1 (t_n pop - t pop)) else None)"
  by (simp add: computeRates_def Let_def)

lemma ratio_computeRates:
  "ratio (computeRates areaT areaTN pop)
     = (if lcr (computeRates areaT areaTN pop) \<noteq> None \<and> pgr (computeRates areaT areaTN pop) \<noteq> None
           \<and> pgr (computeRates areaT areaTN pop) \<noteq> Some 0
        then Some (the (lcr (computeRates areaT areaTN pop)) / the (pgr (computeRates areaT areaTN pop)))
        else None)"
  by (simp add: computeRates_def Let_def)

text \<open>An annual rate is zero exactly when the quantity did not change.\<close>

lemma annual_rate_zero:
  fixes a b y :: real
  assumes "0 < a" "0 < b" "1 \<le> y"
  shows "ln (b / a) / y = 0 \<longleftrightarrow> b = a"
  using assms by (auto simp: ln_div)

lemma pgr_zero:
  "pgr (computeRates areaT areaTN pop) = Some 0
     \<longleftrightarrow> 0 < population_t pop \<and> 0 < population_tn pop \<and> population_tn pop = population_t pop"
proof -
  have y: "(1::real) \<le> max 1 (t_n pop - t pop)" by simp
  show ?thesis
    using annual_rate_zero [OF _ _ y, of "population_t pop" "population_tn pop"]
    by (auto simp: pgr_computeRates simp del: max.bounded_iff)
qed

text \<open>
  Claim C3. For all inputs, \<^verbatim>\<open>computeRates\<close> returns \<open>years = max 1 (t_n - t)\<close>, which
  is at least one; \<open>lcr = ln (areaTN / areaT) / years\<close> if both areas are strictly
  positive and no value otherwise; \<open>pgr = ln (popTN / popT) / years\<close> if both
  populations are strictly positive and no value otherwise; and \<open>ratio = lcr / pgr\<close> if
  both have a value and \<open>pgr\<close> is not zero, no value otherwise. The function is total: an
  input that is not positive gives a missing field, never a failure. So the ratio has a
  value exactly when both areas and both populations are positive and the population
  changed.
\<close>

theorem computeRates_spec:
  "years (computeRates areaT areaTN pop) = max 1 (t_n pop - t pop)
   \<and> 1 \<le> years (computeRates areaT areaTN pop)
   \<and> lcr (computeRates areaT areaTN pop)
       = (if 0 < areaT \<and> 0 < areaTN
          then Some (ln (areaTN / areaT) / years (computeRates areaT areaTN pop)) else None)
   \<and> pgr (computeRates areaT areaTN pop)
       = (if 0 < population_t pop \<and> 0 < population_tn pop
          then Some (ln (population_tn pop / population_t pop) / years (computeRates areaT areaTN pop))
          else None)
   \<and> ratio (computeRates areaT areaTN pop)
       = (case (lcr (computeRates areaT areaTN pop), pgr (computeRates areaT areaTN pop)) of
            (Some l, Some p) \<Rightarrow> if p \<noteq> 0 then Some (l / p) else None
          | _ \<Rightarrow> None)
   \<and> (ratio (computeRates areaT areaTN pop) \<noteq> None \<longleftrightarrow>
        0 < areaT \<and> 0 < areaTN \<and> 0 < population_t pop \<and> 0 < population_tn pop
        \<and> population_tn pop \<noteq> population_t pop)
   \<and> area_t_m2 (computeRates areaT areaTN pop) = areaT
   \<and> area_tn_m2 (computeRates areaT areaTN pop) = areaTN"
proof (intro conjI)
  show "years (computeRates areaT areaTN pop) = max 1 (t_n pop - t pop)"
    by (rule years_computeRates)
  show "1 \<le> years (computeRates areaT areaTN pop)"
    by (simp add: years_computeRates)
  show "lcr (computeRates areaT areaTN pop)
       = (if 0 < areaT \<and> 0 < areaTN
          then Some (ln (areaTN / areaT) / years (computeRates areaT areaTN pop)) else None)"
    by (simp only: lcr_computeRates years_computeRates)
  show "pgr (computeRates areaT areaTN pop)
       = (if 0 < population_t pop \<and> 0 < population_tn pop
          then Some (ln (population_tn pop / population_t pop) / years (computeRates areaT areaTN pop))
          else None)"
    by (simp only: pgr_computeRates years_computeRates)
  show "ratio (computeRates areaT areaTN pop)
       = (case (lcr (computeRates areaT areaTN pop), pgr (computeRates areaT areaTN pop)) of
            (Some l, Some p) \<Rightarrow> if p \<noteq> 0 then Some (l / p) else None
          | _ \<Rightarrow> None)"
    by (cases "lcr (computeRates areaT areaTN pop)"; cases "pgr (computeRates areaT areaTN pop)")
       (simp_all add: ratio_computeRates)
  have "ratio (computeRates areaT areaTN pop) \<noteq> None \<longleftrightarrow>
        lcr (computeRates areaT areaTN pop) \<noteq> None \<and> pgr (computeRates areaT areaTN pop) \<noteq> None
        \<and> pgr (computeRates areaT areaTN pop) \<noteq> Some 0"
    by (simp add: ratio_computeRates)
  also have "lcr (computeRates areaT areaTN pop) \<noteq> None \<longleftrightarrow> 0 < areaT \<and> 0 < areaTN"
    by (simp add: lcr_computeRates)
  also have "pgr (computeRates areaT areaTN pop) \<noteq> None
      \<longleftrightarrow> 0 < population_t pop \<and> 0 < population_tn pop"
    by (simp add: pgr_computeRates)
  finally show "ratio (computeRates areaT areaTN pop) \<noteq> None \<longleftrightarrow>
        0 < areaT \<and> 0 < areaTN \<and> 0 < population_t pop \<and> 0 < population_tn pop
        \<and> population_tn pop \<noteq> population_t pop"
    by (auto simp: pgr_zero)
  show "area_t_m2 (computeRates areaT areaTN pop) = areaT"
    by (simp add: computeRates_def Let_def)
  show "area_tn_m2 (computeRates areaT areaTN pop) = areaTN"
    by (simp add: computeRates_def Let_def)
qed

text \<open>
  The three sample computations of the specification, and one with no time elapsed:
  equal areas and populations give rates zero and no ratio; a doubled area with a tenth
  more people gives both rates and a ratio; an area of zero gives neither rate of land
  consumption nor ratio; equal years count as one year.
\<close>

theorem computeRates_spec_witness:
  "years (computeRates 100 100 \<lparr>t = 2000, t_n = 2010, population_t = 1000, population_tn = 1000\<rparr>) = 10
   \<and> lcr (computeRates 100 100 \<lparr>t = 2000, t_n = 2010, population_t = 1000, population_tn = 1000\<rparr>) = Some 0
   \<and> pgr (computeRates 100 100 \<lparr>t = 2000, t_n = 2010, population_t = 1000, population_tn = 1000\<rparr>) = Some 0
   \<and> ratio (computeRates 100 100 \<lparr>t = 2000, t_n = 2010, population_t = 1000, population_tn = 1000\<rparr>) = None
   \<and> lcr (computeRates 100 200 \<lparr>t = 2000, t_n = 2010, population_t = 1000, population_tn = 1100\<rparr>) = Some (ln 2 / 10)
   \<and> pgr (computeRates 100 200 \<lparr>t = 2000, t_n = 2010, population_t = 1000, population_tn = 1100\<rparr>) = Some (ln (11 / 10) / 10)
   \<and> ratio (computeRates 100 200 \<lparr>t = 2000, t_n = 2010, population_t = 1000, population_tn = 1100\<rparr>) \<noteq> None
   \<and> lcr (computeRates 0 200 \<lparr>t = 2000, t_n = 2010, population_t = 1000, population_tn = 1100\<rparr>) = None
   \<and> ratio (computeRates 0 200 \<lparr>t = 2000, t_n = 2010, population_t = 1000, population_tn = 1100\<rparr>) = None
   \<and> years (computeRates 100 200 \<lparr>t = 2010, t_n = 2010, population_t = 1000, population_tn = 1100\<rparr>) = 1"
  using computeRates_spec [of 100 100 "\<lparr>t = 2000, t_n = 2010, population_t = 1000, population_tn = 1000\<rparr>"]
        computeRates_spec [of 100 200 "\<lparr>t = 2000, t_n = 2010, population_t = 1000, population_tn = 1100\<rparr>"]
        computeRates_spec [of 0 200 "\<lparr>t = 2000, t_n = 2010, population_t = 1000, population_tn = 1100\<rparr>"]
        computeRates_spec [of 100 200 "\<lparr>t = 2010, t_n = 2010, population_t = 1000, population_tn = 1100\<rparr>"]
  by simp

end
